theory Spec2Isabelle
  imports Complex_Main "HOL-Library.Sublist"
begin

section \<open>JavaScript values\<close>

text \<open>
  The file \<open>src/query3/query3.ts\<close> holds two revisions of the class \<open>Query3\<close>: the first
  decodes its query string with \<open>JSON.parse\<close> (suffix \<open>_json\<close> below), the second with
  \<open>qs.parse\<close> (suffix \<open>_flat\<close>). Functions that are the same in both revisions are
  modelled once.

  A JavaScript number is a double. A finite number is represented by the rational it
  denotes, and \<open>Fin 0\<close> stands for a zero of either sign: the sign of a zero is not
  represented. The three non-finite values are constructors of their own. Where an
  operation rounds, or where its result depends on the sign of a zero, its result is taken
  from the environment \<open>js_env\<close> below.
\<close>

datatype jsnum = Fin rat | NaN | PosInf | NegInf

datatype json =
    JNull
  | JBool bool
  | JNum jsnum
  | JStr string
  | JArr "json list"
  | JObj "(string \<times> json) list"

text \<open>
  A plain object is the list of its own enumerable properties in enumeration order
  (the order of \<open>Object.entries\<close>); its keys are pairwise distinct.
\<close>

type_synonym obj = "(string \<times> json) list"

datatype js_error = Error string | TypeError | SyntaxError

datatype js_type = T_object | T_boolean | T_number | T_string

fun typeof :: "json \<Rightarrow> js_type" where
  "typeof JNull = T_object"
| "typeof (JBool b) = T_boolean"
| "typeof (JNum n) = T_number"
| "typeof (JStr s) = T_string"
| "typeof (JArr xs) = T_object"
| "typeof (JObj kvs) = T_object"

text \<open>Decimal numerals, the form of the index keys of arrays and strings.\<close>

definition digit_char :: "nat \<Rightarrow> char" where
  "digit_char d = ''0123456789'' ! d"

function string_of_nat :: "nat \<Rightarrow> string" where
  "string_of_nat n =
     (if n < 10 then [digit_char n] else string_of_nat (n div 10) @ [digit_char (n mod 10)])"
  by pat_completeness auto
termination
  by (relation "measure (\<lambda>n. n)") auto

definition index_keys :: "nat \<Rightarrow> string list" where
  "index_keys n = map string_of_nat [0..<n]"

text \<open>
  \<open>Object.keys(v)\<close>: throws a \<open>TypeError\<close> on \<open>null\<close>; the own keys of an object; the
  indices of an array or of a string; nothing for a number or a boolean.
\<close>

fun Object_keys :: "json \<Rightarrow> js_error + string list" where
  "Object_keys JNull = Inl TypeError"
| "Object_keys (JBool b) = Inr []"
| "Object_keys (JNum n) = Inr []"
| "Object_keys (JStr s) = Inr (index_keys (length s))"
| "Object_keys (JArr xs) = Inr (index_keys (length xs))"
| "Object_keys (JObj kvs) = Inr (map fst kvs)"

section \<open>Operator validation\<close>

text \<open>The message of the error thrown for a rejected key: \<open>Operator '${operator}' is not allowed.\<close>\<close>

definition not_allowed_message :: "string \<Rightarrow> string" where
  "not_allowed_message operator =
     ''Operator '' @ [CHR 0x27] @ operator @ [CHR 0x27] @ '' is not allowed.''"

text \<open>
  The inner loop \<open>Object.keys(value).forEach((operator) => ...)\<close>: the first key that
  \<open>allowedOperators.includes\<close> rejects throws, and the loop ends there.
\<close>

fun check_operators :: "string list \<Rightarrow> string list \<Rightarrow> js_error + unit" where
  "check_operators allowedOperators [] = Inr ()"
| "check_operators allowedOperators (operator # rest) =
     (if operator \<notin> set allowedOperators
      then Inl (Error (not_allowed_message operator))
      else check_operators allowedOperators rest)"

text \<open>
  First revision: the guard is \<open>typeof value === 'object'\<close> alone, so \<open>Object.keys\<close> is
  also applied to \<open>null\<close>.
\<close>

fun validateOperators_json :: "obj \<Rightarrow> string list \<Rightarrow> js_error + unit" where
  "validateOperators_json [] allowedOperators = Inr ()"
| "validateOperators_json ((key, v) # rest) allowedOperators =
     (if typeof v = T_object
      then (case Object_keys v of
              Inl e \<Rightarrow> Inl e
            | Inr operators \<Rightarrow>
                (case check_operators allowedOperators operators of
                   Inl e \<Rightarrow> Inl e
                 | Inr u \<Rightarrow> validateOperators_json rest allowedOperators))
      else validateOperators_json rest allowedOperators)"

text \<open>Second revision: the guard is \<open>typeof value === 'object' && value !== null\<close>.\<close>

fun validateOperators_flat :: "obj \<Rightarrow> string list \<Rightarrow> js_error + unit" where
  "validateOperators_flat [] allowedOperators = Inr ()"
| "validateOperators_flat ((key, v) # rest) allowedOperators =
     (if typeof v = T_object \<and> v \<noteq> JNull
      then (case Object_keys v of
              Inl e \<Rightarrow> Inl e
            | Inr operators \<Rightarrow>
                (case check_operators allowedOperators operators of
                   Inl e \<Rightarrow> Inl e
                 | Inr u \<Rightarrow> validateOperators_flat rest allowedOperators))
      else validateOperators_flat rest allowedOperators)"

section \<open>Numbers, truthiness and coercion\<close>

text \<open>\<open>Math.ceil\<close>: the least integer not below a finite number; other values stay.\<close>

fun Math_ceil :: "jsnum \<Rightarrow> jsnum" where
  "Math_ceil (Fin r) = Fin (of_int \<lceil>r\<rceil>)"
| "Math_ceil x = x"

definition isNaN :: "jsnum \<Rightarrow> bool" where
  "isNaN x = (x = NaN)"

text \<open>The falsy values are \<open>null\<close>, \<open>false\<close>, \<open>0\<close>, \<open>NaN\<close> and the empty string.\<close>

fun truthy :: "json \<Rightarrow> bool" where
  "truthy JNull = False"
| "truthy (JBool b) = b"
| "truthy (JNum n) = (n \<noteq> Fin 0 \<and> n \<noteq> NaN)"
| "truthy (JStr s) = (s \<noteq> [])"
| "truthy (JArr xs) = True"
| "truthy (JObj kvs) = True"

text \<open>
  \<open>a || b\<close> where \<open>a\<close> is a property that may be absent (\<open>undefined\<close>, which is falsy).
\<close>

fun js_or :: "json option \<Rightarrow> json \<Rightarrow> json" where
  "js_or None d = d"
| "js_or (Some v) d = (if truthy v then v else d)"

text \<open>
  What the code takes from the language and from the library \<open>qs\<close>, as parameters:
  \<^item> \<open>JSON_parse\<close>: \<open>JSON.parse\<close> on a text that decodes to a mapping (the first revision
    declares its result a \<open>Query3Parse\<close>, a mapping; the second applies it only to texts
    that start with an opening brace), or its \<open>SyntaxError\<close>;
  \<^item> \<open>qs_parse\<close>: \<open>qs.parse(queryString, {ignoreQueryPrefix: true, depth: 5})\<close>, whose
    values are strings, arrays and nested mappings;
  \<^item> \<open>StringToNumber\<close>: \<open>Number\<close> on a string;
  \<^item> \<open>ObjectToNumber\<close>: \<open>Number\<close> on an array or a plain object (through its string form);
  \<^item> \<open>finite_quotient\<close>: \<open>a / b\<close> for finite numbers \<open>a\<close> and \<open>b\<close> with \<open>a\<close> not zero: the
    quotient rounded to a double; an infinity when it overflows, and when \<open>b\<close> is a zero
    (its sign given by the signs of \<open>a\<close> and of that zero); a zero when it underflows.
\<close>

record js_env =
  JSON_parse :: "string \<Rightarrow> js_error + obj"
  qs_parse :: "string \<Rightarrow> obj"
  StringToNumber :: "string \<Rightarrow> jsnum"
  ObjectToNumber :: "json \<Rightarrow> jsnum"
  finite_quotient :: "rat \<Rightarrow> rat \<Rightarrow> jsnum"

text \<open>
  The quotient \<open>a / y\<close> of a finite number by a number: \<open>NaN\<close> for \<open>0 / 0\<close> and for a
  divisor \<open>NaN\<close>, a zero for a zero numerator and for an infinite divisor, and otherwise
  what the environment gives.
\<close>

fun js_div :: "js_env \<Rightarrow> rat \<Rightarrow> jsnum \<Rightarrow> jsnum" where
  "js_div env a (Fin b) =
     (if a = 0 then (if b = 0 then NaN else Fin 0) else finite_quotient env a b)"
| "js_div env a PosInf = Fin 0"
| "js_div env a NegInf = Fin 0"
| "js_div env a NaN = NaN"

fun Number_js :: "js_env \<Rightarrow> json \<Rightarrow> jsnum" where
  "Number_js env JNull = Fin 0"
| "Number_js env (JBool b) = (if b then Fin 1 else Fin 0)"
| "Number_js env (JNum n) = n"
| "Number_js env (JStr s) = StringToNumber env s"
| "Number_js env (JArr xs) = ObjectToNumber env (JArr xs)"
| "Number_js env (JObj kvs) = ObjectToNumber env (JObj kvs)"

section \<open>Objects\<close>

text \<open>
  \<open>CreateDataProperty\<close>: an existing key keeps its place and takes the new value, a new
  key goes to the end. (The place of integer-like keys, which JavaScript enumerates
  first, is not represented.)
\<close>

fun set_property :: "obj \<Rightarrow> string \<Rightarrow> json \<Rightarrow> obj" where
  "set_property [] k v = [(k, v)]"
| "set_property ((k', v') # ps) k v =
     (if k' = k then (k, v) # ps else (k', v') # set_property ps k v)"

text \<open>
  The assignment \<open>acc[key] = v\<close> on an ordinary object. For the key \<open>__proto__\<close> it runs
  the setter inherited from \<open>Object.prototype\<close>, which creates no own property.
\<close>

definition assign :: "obj \<Rightarrow> string \<Rightarrow> json \<Rightarrow> obj" where
  "assign acc key v = (if key = ''__proto__'' then acc else set_property acc key v)"

text \<open>The own enumerable string-keyed properties of a value, as a spread copies them.\<close>

fun own_entries :: "json \<Rightarrow> obj" where
  "own_entries JNull = []"
| "own_entries (JBool b) = []"
| "own_entries (JNum n) = []"
| "own_entries (JStr s) = zip (index_keys (length s)) (map (\<lambda>c. JStr [c]) s)"
| "own_entries (JArr xs) = zip (index_keys (length xs)) xs"
| "own_entries (JObj kvs) = kvs"

text \<open>\<open>{ ...acc, ...src }\<close>: the properties of \<open>src\<close> are defined on the copy in order.\<close>

definition object_spread :: "obj \<Rightarrow> obj \<Rightarrow> obj" where
  "object_spread acc src = fold (\<lambda>(k, v) a. set_property a k v) src acc"

definition delete_property :: "obj \<Rightarrow> string \<Rightarrow> obj" where
  "delete_property result field = filter (\<lambda>(k, v). k \<noteq> field) result"

section \<open>Field omission\<close>

text \<open>
  \<open>omitFields(data, fields)\<close>: each item is copied by a spread, and every field (here
  \<open>flds\<close>) is deleted from the copy.
\<close>

definition omitFields :: "obj list \<Rightarrow> string list \<Rightarrow> obj list" where
  "omitFields data flds =
     map (\<lambda>item. fold (\<lambda>field result. delete_property result field) flds
                    (object_spread [] item))
       data"

section \<open>Parsing the query string\<close>

text \<open>
  Modelled from the spec: the module \<open>query3.constant\<close> is not among the sources. The
  spec gives the defaults of \<open>limit\<close> and \<open>offset\<close> as 20 and 0 (the README of the
  repository says the same). The third constant of that module, the default allow-list,
  is a parameter \<open>DefaultAllowedOperators\<close> of the parsing functions.
\<close>

definition DefaultLimit :: json where
  "DefaultLimit = JNum (Fin 20)"

definition DefaultOffset :: json where
  "DefaultOffset = JNum (Fin 0)"

record options =
  opt_populate :: "json option"
  opt_omitFields :: "string list option"
  opt_queryMongoose :: "obj option"
  opt_allowedOperators :: "string list option"

record ParseQueryResult =
  filter_q :: obj
  limit :: jsnum
  offset :: jsnum
  sort_q :: json
  count :: json
  justOne :: json
  cacheTimeMs :: jsnum

text \<open>
  First revision. The destructuring pattern takes the five reserved keys out (a default
  applies only to an absent key) and collects all other own properties in \<open>filters\<close>;
  after validation, \<open>reduce\<close> assigns each entry to a new object, object-typed values
  copied by a spread.
\<close>

definition parseQueryString_json ::
  "js_env \<Rightarrow> string list \<Rightarrow> string \<Rightarrow> options \<Rightarrow> js_error + ParseQueryResult" where
  "parseQueryString_json env DefaultAllowedOperators queryString options =
     (case JSON_parse env queryString of
        Inl e \<Rightarrow> Inl e
      | Inr query \<Rightarrow>
          let limit = (case map_of query ''limit'' of None \<Rightarrow> DefaultLimit | Some v \<Rightarrow> v);
              offset = (case map_of query ''offset'' of None \<Rightarrow> DefaultOffset | Some v \<Rightarrow> v);
              sort = map_of query ''sort'';
              justOne = (case map_of query ''justOne'' of None \<Rightarrow> JBool False | Some v \<Rightarrow> v);
              count = (case map_of query ''count'' of None \<Rightarrow> JBool False | Some v \<Rightarrow> v);
              filters =
                filter (\<lambda>(k, v). k \<notin> set [''limit'', ''offset'', ''sort'', ''justOne'', ''count''])
                  query;
              allowedOperators =
                (case opt_allowedOperators options of
                   None \<Rightarrow> DefaultAllowedOperators | Some a \<Rightarrow> a)
          in (case validateOperators_json filters allowedOperators of
                Inl e \<Rightarrow> Inl e
              | Inr u \<Rightarrow>
                  Inr \<lparr>filter_q =
                         fold (\<lambda>(key, v) acc.
                                 assign acc key
                                   (if typeof v = T_object
                                    then JObj (object_spread [] (own_entries v)) else v))
                           filters [],
                       limit = Number_js env limit,
                       offset = Number_js env offset,
                       sort_q = js_or sort (JObj []),
                       count = count,
                       justOne = justOne,
                       cacheTimeMs = Fin 0\<rparr>))"

text \<open>
  Second revision. One step of the outer \<open>reduce\<close>: a string that starts with an opening
  brace (\<open>brace_string\<close>) is decoded as JSON, which may throw; the entries of a non-null
  object are converted one by one into a new object; anything else is converted itself.
  A conversion replaces a value by its number unless that number is \<open>NaN\<close>.
\<close>

definition to_number_if_numeric :: "js_env \<Rightarrow> json \<Rightarrow> json" where
  "to_number_if_numeric env v = (if isNaN (Number_js env v) then v else JNum (Number_js env v))"

definition brace_string :: "json \<Rightarrow> string option" where
  "brace_string v = (case v of JStr (c # cs) \<Rightarrow> if c = CHR ''{'' then Some (c # cs) else None | _ \<Rightarrow> None)"

definition convert_entry :: "js_env \<Rightarrow> obj \<Rightarrow> string \<times> json \<Rightarrow> js_error + obj" where
  "convert_entry env acc entry =
     (case entry of (key, v) \<Rightarrow>
        (case brace_string v of
           Some s \<Rightarrow>
             (case JSON_parse env s of
                Inl e \<Rightarrow> Inl e
              | Inr decoded \<Rightarrow> Inr (assign acc key (JObj decoded)))
         | None \<Rightarrow>
             if typeof v = T_object \<and> v \<noteq> JNull
             then Inr (assign acc key
                         (JObj (fold (\<lambda>(subKey, subValue) subAcc.
                                        assign subAcc subKey (to_number_if_numeric env subValue))
                                  (own_entries v) [])))
             else Inr (assign acc key (to_number_if_numeric env v))))"

fun convert_filters :: "js_env \<Rightarrow> obj \<Rightarrow> obj \<Rightarrow> js_error + obj" where
  "convert_filters env acc [] = Inr acc"
| "convert_filters env acc (entry # entries) =
     (case convert_entry env acc entry of
        Inl e \<Rightarrow> Inl e
      | Inr acc' \<Rightarrow> convert_filters env acc' entries)"

definition parseQueryString_flat ::
  "js_env \<Rightarrow> string list \<Rightarrow> string \<Rightarrow> options \<Rightarrow> js_error + ParseQueryResult" where
  "parseQueryString_flat env DefaultAllowedOperators queryString options =
     (let parsedQuery = qs_parse env queryString;
          limit = Number_js env (js_or (map_of parsedQuery ''limit'') DefaultLimit);
          offset = Number_js env (js_or (map_of parsedQuery ''offset'') DefaultOffset);
          sort = js_or (map_of parsedQuery ''sort'') (JObj []);
          count = (map_of parsedQuery ''count'' = Some (JStr ''true''));
          justOne = (map_of parsedQuery ''justOne'' = Some (JStr ''true''))
      in (case convert_filters env []
                 (filter (\<lambda>(key, v).
                            key \<notin> set [''limit'', ''offset'', ''sort'', ''count'', ''justOne''])
                    parsedQuery) of
            Inl e \<Rightarrow> Inl e
          | Inr filters \<Rightarrow>
              let allowedOperators =
                    (case opt_allowedOperators options of
                       None \<Rightarrow> DefaultAllowedOperators | Some a \<Rightarrow> a)
              in (case validateOperators_flat filters allowedOperators of
                    Inl e \<Rightarrow> Inl e
                  | Inr u \<Rightarrow>
                      Inr \<lparr>filter_q = filters,
                           limit = limit,
                           offset = offset,
                           sort_q = sort,
                           count = JBool count,
                           justOne = JBool justOne,
                           cacheTimeMs = Fin 0\<rparr>)))"

section \<open>The query\<close>

text \<open>
  The collaborator, a Mongoose model: \<open>countDocuments(filter)\<close>, and the chain
  \<open>find(filter).skip(offset).limit(limit).sort(sort).populate(populate).lean().exec()\<close>
  as one operation. Either may fail. Every call is recorded, in order.
\<close>

record model =
  countDocuments :: "obj \<Rightarrow> js_error + nat"
  find_exec :: "obj \<Rightarrow> jsnum \<Rightarrow> jsnum \<Rightarrow> json \<Rightarrow> json option \<Rightarrow> js_error + obj list"

datatype call =
    CountDocuments obj
  | Find obj jsnum jsnum json "json option"

record PaginationResult =
  totalRows :: nat
  totalPages :: jsnum

record QueryResult =
  records :: "obj list"
  pagination :: PaginationResult

text \<open>
  The body of \<open>query\<close> after \<open>parseQueryString\<close>, the same in both revisions. A failure
  of the parse is thrown before anything else is done.
\<close>

definition run_query ::
  "js_env \<Rightarrow> js_error + ParseQueryResult \<Rightarrow> model \<Rightarrow> options
     \<Rightarrow> (js_error + QueryResult) \<times> call list" where
  "run_query env parsed m options =
     (case parsed of
        Inl e \<Rightarrow> (Inl e, [])
      | Inr p \<Rightarrow>
          let combinedFilter =
                object_spread (object_spread [] (filter_q p))
                  (case opt_queryMongoose options of None \<Rightarrow> [] | Some extra \<Rightarrow> extra)
          in (case countDocuments m combinedFilter of
                Inl e \<Rightarrow> (Inl e, [CountDocuments combinedFilter])
              | Inr rows \<Rightarrow>
                  let pages = Math_ceil (js_div env (of_nat rows) (limit p));
                      calls = [CountDocuments combinedFilter,
                               Find combinedFilter (offset p) (limit p) (sort_q p)
                                 (opt_populate options)]
                  in (case find_exec m combinedFilter (offset p) (limit p) (sort_q p)
                             (opt_populate options) of
                        Inl e \<Rightarrow> (Inl e, calls)
                      | Inr found \<Rightarrow>
                          (Inr \<lparr>records =
                                  (case opt_omitFields options of
                                     Some omitted \<Rightarrow> omitFields found omitted
                                   | None \<Rightarrow> found),
                                pagination = \<lparr>totalRows = rows, totalPages = pages\<rparr>\<rparr>,
                           calls))))"

definition query_json ::
  "js_env \<Rightarrow> string list \<Rightarrow> model \<Rightarrow> string \<Rightarrow> options
     \<Rightarrow> (js_error + QueryResult) \<times> call list" where
  "query_json env DefaultAllowedOperators m queryString options =
     run_query env (parseQueryString_json env DefaultAllowedOperators queryString options)
       m options"

definition query_flat ::
  "js_env \<Rightarrow> string list \<Rightarrow> model \<Rightarrow> string \<Rightarrow> options
     \<Rightarrow> (js_error + QueryResult) \<times> call list" where
  "query_flat env DefaultAllowedOperators m queryString options =
     run_query env (parseQueryString_flat env DefaultAllowedOperators queryString options)
       m options"

section \<open>Field omission on a store\<close>

text \<open>
  To say what \<open>omitFields\<close> writes, records and arrays live in a store: a cell is a
  record or an array of addresses, an address is an index into the store, and a new cell
  is put at the end. The property values of a record are kept as values: \<open>omitFields\<close>
  copies them from the item to its copy and never writes into them.

  The result \<open>None\<close> is not an exception: it marks a store in which \<open>data\<close> is not an
  array of records, which the parameter type \<open>T[]\<close> excludes.
\<close>

datatype cell = Record obj | Array "nat list"

type_synonym store = "cell list"

definition read_cell :: "store \<Rightarrow> nat \<Rightarrow> cell option" where
  "read_cell h a = (if a < length h then Some (h ! a) else None)"

definition alloc :: "store \<Rightarrow> cell \<Rightarrow> store \<times> nat" where
  "alloc h c = (h @ [c], length h)"

text \<open>\<open>delete result[field]\<close> writes the cell at the address \<open>result\<close>.\<close>

definition delete_at :: "store \<Rightarrow> nat \<Rightarrow> string \<Rightarrow> store" where
  "delete_at h result field =
     (case read_cell h result of
        Some (Record ps) \<Rightarrow> h[result := Record (delete_property ps field)]
      | _ \<Rightarrow> h)"

text \<open>The callback of \<open>data.map\<close>: \<open>const result = { ...item }\<close>, then the deletions.\<close>

definition omit_item :: "store \<Rightarrow> string list \<Rightarrow> nat \<Rightarrow> (store \<times> nat) option" where
  "omit_item h flds item =
     (case read_cell h item of
        Some (Record ps) \<Rightarrow>
          (case alloc h (Record (object_spread [] ps)) of
             (h1, result) \<Rightarrow> Some (fold (\<lambda>field h'. delete_at h' result field) flds h1, result))
      | _ \<Rightarrow> None)"

fun map_items :: "store \<Rightarrow> string list \<Rightarrow> nat list \<Rightarrow> (store \<times> nat list) option" where
  "map_items h flds [] = Some (h, [])"
| "map_items h flds (item # items) =
     (case omit_item h flds item of
        None \<Rightarrow> None
      | Some (h1, result) \<Rightarrow>
          (case map_items h1 flds items of
             None \<Rightarrow> None
           | Some (h2, results) \<Rightarrow> Some (h2, result # results)))"

definition omitFields_store :: "store \<Rightarrow> nat \<Rightarrow> string list \<Rightarrow> (store \<times> nat) option" where
  "omitFields_store h data flds =
     (case read_cell h data of
        Some (Array items) \<Rightarrow>
          (case map_items h flds items of
             None \<Rightarrow> None
           | Some (h', results) \<Rightarrow> Some (alloc h' (Array results)))
      | _ \<Rightarrow> None)"

text \<open>Reading a store: the properties of the record, or the items of the array, at an address.\<close>

definition record_at :: "store \<Rightarrow> nat \<Rightarrow> obj" where
  "record_at h a = (case read_cell h a of Some (Record ps) \<Rightarrow> ps | _ \<Rightarrow> [])"

definition items_at :: "store \<Rightarrow> nat \<Rightarrow> nat list" where
  "items_at h a = (case read_cell h a of Some (Array items) \<Rightarrow> items | _ \<Rightarrow> [])"

definition is_record :: "store \<Rightarrow> nat \<Rightarrow> bool" where
  "is_record h a = (case read_cell h a of Some (Record ps) \<Rightarrow> True | _ \<Rightarrow> False)"

definition array_of_records :: "store \<Rightarrow> nat \<Rightarrow> bool" where
  "array_of_records h data =
     (case read_cell h data of
        Some (Array items) \<Rightarrow> list_all (is_record h) items
      | _ \<Rightarrow> False)"

section \<open>A sample environment\<close>

text \<open>
  For evaluation at concrete inputs. \<open>decimal_number\<close> agrees with \<open>Number\<close> on the empty
  string and on decimal literals, with an optional sign and an optional fraction, whose
  value is a double (as those of \<open>0\<close>, \<open>5\<close>, \<open>10\<close> and \<open>2.5\<close> are); \<open>array_number\<close> is
  \<open>Number\<close> on arrays and plain objects of such values; \<open>exact_quotient\<close> agrees with the
  division where the quotient is a double and a zero divisor is positive. The two decoders
  of \<open>sample_env\<close> are a finite table from the texts in use to what they decode to. No
  statement below uses them outside these inputs.
\<close>

definition digit_value :: "char \<Rightarrow> nat option" where
  "digit_value c =
     map_of [(CHR ''0'', 0), (CHR ''1'', 1), (CHR ''2'', 2), (CHR ''3'', 3), (CHR ''4'', 4),
             (CHR ''5'', 5), (CHR ''6'', 6), (CHR ''7'', 7), (CHR ''8'', 8), (CHR ''9'', 9)] c"

fun digits_value :: "nat \<Rightarrow> string \<Rightarrow> nat option" where
  "digits_value acc [] = Some acc"
| "digits_value acc (c # cs) =
     (case digit_value c of None \<Rightarrow> None | Some d \<Rightarrow> digits_value (10 * acc + d) cs)"

definition unsigned_decimal :: "string \<Rightarrow> rat option" where
  "unsigned_decimal s =
     (let ip = takeWhile (\<lambda>c. c \<noteq> CHR ''.'') s;
          fp = (case dropWhile (\<lambda>c. c \<noteq> CHR ''.'') s of [] \<Rightarrow> [] | dot # ds \<Rightarrow> ds)
      in if ip = [] \<and> fp = [] then None
         else (case (digits_value 0 ip, digits_value 0 fp) of
                 (Some i, Some f) \<Rightarrow> Some (of_nat i + of_nat f / 10 ^ length fp)
               | _ \<Rightarrow> None))"

definition decimal_number :: "string \<Rightarrow> jsnum" where
  "decimal_number s =
     (case s of
        [] \<Rightarrow> Fin 0
      | c # cs \<Rightarrow>
          if c = CHR ''-'' then (case unsigned_decimal cs of Some r \<Rightarrow> Fin (- r) | None \<Rightarrow> NaN)
          else if c = CHR ''+'' then (case unsigned_decimal cs of Some r \<Rightarrow> Fin r | None \<Rightarrow> NaN)
          else (case unsigned_decimal s of Some r \<Rightarrow> Fin r | None \<Rightarrow> NaN))"

fun array_number :: "json \<Rightarrow> jsnum" where
  "array_number (JArr []) = Fin 0"
| "array_number (JArr [JNull]) = Fin 0"
| "array_number (JArr [JNum n]) = n"
| "array_number (JArr [JStr s]) = decimal_number s"
| "array_number (JArr [JArr xs]) = array_number (JArr xs)"
| "array_number v = NaN"

definition exact_quotient :: "rat \<Rightarrow> rat \<Rightarrow> jsnum" where
  "exact_quotient a b = (if b = 0 then (if 0 < a then PosInf else NegInf) else Fin (a / b))"

definition sample_env :: "(string \<times> obj) list \<Rightarrow> js_env" where
  "sample_env decoded =
     \<lparr>JSON_parse = (\<lambda>s. case map_of decoded s of Some q \<Rightarrow> Inr q | None \<Rightarrow> Inl SyntaxError),
      qs_parse = (\<lambda>s. case map_of decoded s of Some q \<Rightarrow> q | None \<Rightarrow> []),
      StringToNumber = decimal_number,
      ObjectToNumber = array_number,
      finite_quotient = exact_quotient\<rparr>"

text \<open>A collaborator that answers every call the same, as the mock of the tests does.\<close>

definition sample_model :: "nat \<Rightarrow> obj list \<Rightarrow> model" where
  "sample_model rows docs =
     \<lparr>countDocuments = (\<lambda>f. Inr rows), find_exec = (\<lambda>f skip lim srt pop. Inr docs)\<rparr>"

text \<open>The default \<open>options = {}\<close>.\<close>

definition no_options :: options where
  "no_options =
     \<lparr>opt_populate = None, opt_omitFields = None, opt_queryMongoose = None,
      opt_allowedOperators = None\<rparr>"

section \<open>Notions used in the statements\<close>

text \<open>
  The keys found one level inside the values of a filter, in the order of traversal: those
  of the nested mappings.
\<close>

definition nested_keys :: "obj \<Rightarrow> string list" where
  "nested_keys f = concat (map (\<lambda>(k, v). case v of JObj kvs \<Rightarrow> map fst kvs | _ \<Rightarrow> []) f)"

definition first_disallowed :: "string list \<Rightarrow> obj \<Rightarrow> string option" where
  "first_disallowed allowed f = find (\<lambda>operator. operator \<notin> set allowed) (nested_keys f)"

text \<open>A filter value that is a literal (string, number or boolean) or a nested mapping.\<close>

definition literal_or_mapping :: "json \<Rightarrow> bool" where
  "literal_or_mapping v = (case v of JNull \<Rightarrow> False | JArr xs \<Rightarrow> False | _ \<Rightarrow> True)"




text \<open>The filter a recorded call was made with, and the extra filter of the options.\<close>

fun call_filter :: "call \<Rightarrow> obj" where
  "call_filter (CountDocuments f) = f"
| "call_filter (Find f skp lmt srt pop) = f"

definition extra_filter :: "options \<Rightarrow> obj" where
  "extra_filter opts = (case opt_queryMongoose opts of None \<Rightarrow> [] | Some extra \<Rightarrow> extra)"

text \<open>The filter that \<open>query\<close> builds: \<open>{ ...filter, ...options.queryMongoose }\<close>.\<close>

definition combined :: "ParseQueryResult \<Rightarrow> options \<Rightarrow> obj" where
  "combined p opts = object_spread (object_spread [] (filter_q p)) (extra_filter opts)"

section \<open>Operator validation: lemmas\<close>

lemma check_operators_find:
  "check_operators allowed ks =
     (case find (\<lambda>operator. operator \<notin> set allowed) ks of
        None \<Rightarrow> Inr () | Some operator \<Rightarrow> Inl (Error (not_allowed_message operator)))"
  by (induction ks) auto

lemma find_append_case:
  "find P (xs @ ys) = (case find P xs of None \<Rightarrow> find P ys | Some x \<Rightarrow> Some x)"
  by (induction xs) auto

lemma validate_json_first_disallowed:
  "list_all (\<lambda>(k, v). literal_or_mapping v) f \<Longrightarrow>
   validateOperators_json f allowed =
     (case first_disallowed allowed f of
        None \<Rightarrow> Inr () | Some operator \<Rightarrow> Inl (Error (not_allowed_message operator)))"
  unfolding first_disallowed_def nested_keys_def
proof (induction f)
  case Nil
  then show ?case by simp
next
  case (Cons p f)
  obtain k v where p: "p = (k, v)" by (cases p)
  show ?case using Cons unfolding p
    by (cases v)
      (auto simp: literal_or_mapping_def check_operators_find find_append_case
            split: option.splits)
qed

lemma validate_flat_first_disallowed:
  "list_all (\<lambda>(k, v). literal_or_mapping v \<or> v = JNull) f \<Longrightarrow>
   validateOperators_flat f allowed =
     (case first_disallowed allowed f of
        None \<Rightarrow> Inr () | Some operator \<Rightarrow> Inl (Error (not_allowed_message operator)))"
  unfolding first_disallowed_def nested_keys_def
proof (induction f)
  case Nil
  then show ?case by simp
next
  case (Cons p f)
  obtain k v where p: "p = (k, v)" by (cases p)
  show ?case using Cons unfolding p
    by (cases v)
      (auto simp: literal_or_mapping_def check_operators_find find_append_case
            split: option.splits)
qed








lemma validate_json_append:
  "validateOperators_json (f1 @ f2) allowed =
     (case validateOperators_json f1 allowed of
        Inl e \<Rightarrow> Inl e | Inr u \<Rightarrow> validateOperators_json f2 allowed)"
  by (induction f1 allowed rule: validateOperators_json.induct) (auto split: sum.splits)

lemma validate_flat_append:
  "validateOperators_flat (f1 @ f2) allowed =
     (case validateOperators_flat f1 allowed of
        Inl e \<Rightarrow> Inl e | Inr u \<Rightarrow> validateOperators_flat f2 allowed)"
  by (induction f1 allowed rule: validateOperators_flat.induct) (auto split: sum.splits)


lemma validate_flat_skip:
  "typeof v \<noteq> T_object \<or> v = JNull \<Longrightarrow>
   validateOperators_flat (f1 @ (k, v) # f2) allowed = validateOperators_flat (f1 @ f2) allowed"
  by (auto simp add: validate_flat_append split: sum.splits)

lemma validate_json_null:
  "validateOperators_json (f1 @ (k, JNull) # f2) allowed =
     (case validateOperators_json f1 allowed of Inl e \<Rightarrow> Inl e | Inr u \<Rightarrow> Inl TypeError)"
  by (simp add: validate_json_append split: sum.splits)







section \<open>Operator validation: the claims\<close>

text \<open>
  C1, as amended. Take a filter whose values are literals or nested mappings; in the
  second revision they may also be \<open>null\<close>. Then \<open>validateOperators\<close> returns without
  error when every key of every nested mapping is in the allow-list; otherwise it throws
  at the first key, in the order of traversal, that is not, and the message of the error
  is \<open>Operator '<key>' is not allowed.\<close> with exactly that key. The message is made of
  the key alone: it does not name the field.
\<close>

theorem validateOperators_first_disallowed:
  "(list_all (\<lambda>(k, v). literal_or_mapping v) f \<longrightarrow>
      validateOperators_json f allowed =
        (case first_disallowed allowed f of
           None \<Rightarrow> Inr ()
         | Some operator \<Rightarrow> Inl (Error (not_allowed_message operator))))
   \<and> (list_all (\<lambda>(k, v). literal_or_mapping v \<or> v = JNull) f \<longrightarrow>
      validateOperators_flat f allowed =
        (case first_disallowed allowed f of
           None \<Rightarrow> Inr ()
         | Some operator \<Rightarrow> Inl (Error (not_allowed_message operator))))"
  by (simp add: validate_json_first_disallowed validate_flat_first_disallowed)

text \<open>
  At a concrete input: the second key of \<open>age\<close> is the first that is not allowed, and
  the third is not reached; without it and \<open>$bad\<close>, validation passes.
\<close>

theorem validateOperators_first_disallowed_witness:
  "list_all (\<lambda>(k, v). literal_or_mapping v)
     [(''name'', JStr ''Ann''),
      (''age'', JObj [(''$gte'', JNum (Fin 18)), (''$where'', JStr ''x''), (''$bad'', JNull)])]
   \<and> validateOperators_json
       [(''name'', JStr ''Ann''),
        (''age'', JObj [(''$gte'', JNum (Fin 18)), (''$where'', JStr ''x''), (''$bad'', JNull)])]
       [''$gte'', ''$lte'']
     = Inl (Error ''Operator '$where' is not allowed.'')
   \<and> validateOperators_flat
       [(''name'', JStr ''Ann''),
        (''age'', JObj [(''$gte'', JNum (Fin 18)), (''$where'', JStr ''x''), (''$bad'', JNull)])]
       [''$gte'', ''$lte'']
     = Inl (Error ''Operator '$where' is not allowed.'')
   \<and> validateOperators_json
       [(''name'', JStr ''Ann''), (''age'', JObj [(''$gte'', JNum (Fin 18))])]
       [''$gte'', ''$lte'']
     = Inr ()
   \<and> validateOperators_flat
       [(''name'', JStr ''Ann''), (''age'', JObj [(''$gte'', JNum (Fin 18))])]
       [''$gte'', ''$lte'']
     = Inr ()"
  using
    validateOperators_first_disallowed
      [of "[(''name'', JStr ''Ann''),
            (''age'', JObj [(''$gte'', JNum (Fin 18)), (''$where'', JStr ''x''), (''$bad'', JNull)])]"
          "[''$gte'', ''$lte'']"]
    validateOperators_first_disallowed
      [of "[(''name'', JStr ''Ann''), (''age'', JObj [(''$gte'', JNum (Fin 18))])]"
          "[''$gte'', ''$lte'']"]
  by (simp add: literal_or_mapping_def first_disallowed_def nested_keys_def
        not_allowed_message_def)

text \<open>
  C1 as stated fails.
  \<^item> For the filter \<open>{age: {$invalidOperator: 30}}\<close> and the allow-list \<open>[$gte, $lte]\<close> the
    error thrown cites the key, and the field \<open>age\<close> occurs nowhere in its message.
  \<^item> The filter \<open>{scores: [1]}\<close> holds no nested mapping, hence no operator key that is
    not allowed, and validation fails: an array is of type object, and its index is
    checked as a key.
  \<^item> The filter \<open>{deletedAt: null}\<close> holds no nested mapping either, and the first
    revision fails on it with a \<open>TypeError\<close>.
\<close>

theorem validateOperators_error_omits_field:
  "validateOperators_json [(''age'', JObj [(''$invalidOperator'', JNum (Fin 30))])]
       [''$gte'', ''$lte'']
     = Inl (Error ''Operator '$invalidOperator' is not allowed.'')
   \<and> validateOperators_flat [(''age'', JObj [(''$invalidOperator'', JNum (Fin 30))])]
       [''$gte'', ''$lte'']
     = Inl (Error ''Operator '$invalidOperator' is not allowed.'')
   \<and> \<not> sublist ''age'' ''Operator '$invalidOperator' is not allowed.''
   \<and> validateOperators_json [(''scores'', JArr [JNum (Fin 1)])] [''$gte'', ''$lte'']
     = Inl (Error ''Operator '0' is not allowed.'')
   \<and> validateOperators_flat [(''scores'', JArr [JNum (Fin 1)])] [''$gte'', ''$lte'']
     = Inl (Error ''Operator '0' is not allowed.'')
   \<and> validateOperators_json [(''deletedAt'', JNull)] [''$gte'', ''$lte''] = Inl TypeError"
  apply (simp add: not_allowed_message_def index_keys_def digit_char_def)
  apply (simp add: sublist_Cons_right prefix_code)
  done




text \<open>
  C10, as amended. On a filter that binds some field to \<open>null\<close>, the first revision never
  returns normally: it throws the \<open>TypeError\<close> of \<open>Object.keys(null)\<close> at that field, unless
  an entry before it has already made it throw. The second revision skips the field: it
  does on the filter what it does on the filter without that entry.
\<close>

theorem validateOperators_null:
  "validateOperators_json (f1 @ (name, JNull) # f2) allowed =
     (case validateOperators_json f1 allowed of Inl e \<Rightarrow> Inl e | Inr u \<Rightarrow> Inl TypeError)
   \<and> validateOperators_flat (f1 @ (name, JNull) # f2) allowed
       = validateOperators_flat (f1 @ f2) allowed"
  by (simp add: validate_json_null validate_flat_skip)

theorem validateOperators_null_witness:
  "validateOperators_json
     [(''age'', JObj [(''$gte'', JNum (Fin 18))]), (''deletedAt'', JNull), (''name'', JStr ''Ann'')]
     [''$gte''] = Inl TypeError
   \<and> validateOperators_flat
     [(''age'', JObj [(''$gte'', JNum (Fin 18))]), (''deletedAt'', JNull), (''name'', JStr ''Ann'')]
     [''$gte''] = Inr ()"
  using validateOperators_null
    [of "[(''age'', JObj [(''$gte'', JNum (Fin 18))])]" "''deletedAt''"
        "[(''name'', JStr ''Ann'')]" "[''$gte'']"]
  by simp

text \<open>
  C10 as stated fails: in \<open>{a: {$bad: 1}, b: null}\<close> a field is bound to \<open>null\<close>, yet the first
  revision throws the operator error of \<open>$bad\<close>, not a \<open>TypeError\<close>, and the second does
  not return without error either.
\<close>

theorem validateOperators_null_after_violation:
  "validateOperators_json [(''a'', JObj [(''$bad'', JNum (Fin 1))]), (''b'', JNull)] [''$gte'']
     = Inl (Error ''Operator '$bad' is not allowed.'')
   \<and> validateOperators_flat [(''a'', JObj [(''$bad'', JNum (Fin 1))]), (''b'', JNull)] [''$gte'']
     = Inl (Error ''Operator '$bad' is not allowed.'')"
  by (simp add: not_allowed_message_def)

section \<open>Objects and field omission: lemmas\<close>

lemma keys_set_property: "fst ` set (set_property ps k v) = insert k (fst ` set ps)"
  by (induction ps k v rule: set_property.induct) auto

lemma distinct_set_property:
  "distinct (map fst ps) \<Longrightarrow> distinct (map fst (set_property ps k v))"
  by (induction ps k v rule: set_property.induct) (auto simp: keys_set_property)

lemma set_property_fresh: "k \<notin> fst ` set ps \<Longrightarrow> set_property ps k v = ps @ [(k, v)]"
  by (induction ps k v rule: set_property.induct) auto

lemma map_of_set_property: "map_of (set_property ps k v) = (map_of ps)(k \<mapsto> v)"
  by (induction ps k v rule: set_property.induct) auto

lemma object_spread_Nil [simp]: "object_spread acc [] = acc"
  by (simp add: object_spread_def)

lemma object_spread_Cons [simp]:
  "object_spread acc ((k, v) # src) = object_spread (set_property acc k v) src"
  by (simp add: object_spread_def)

lemma distinct_object_spread:
  "distinct (map fst acc) \<Longrightarrow> distinct (map fst (object_spread acc src))"
  by (induction src arbitrary: acc) (auto simp: distinct_set_property)

lemma keys_object_spread:
  "fst ` set (object_spread acc src) = fst ` set acc \<union> fst ` set src"
proof (induction src arbitrary: acc)
  case Nil
  then show ?case by simp
next
  case (Cons p src)
  obtain k v where p: "p = (k, v)" by (cases p)
  show ?case unfolding p by (simp add: Cons.IH keys_set_property)
qed

lemma object_spread_distinct:
  "distinct (map fst (acc @ src)) \<Longrightarrow> object_spread acc src = acc @ src"
proof (induction src arbitrary: acc)
  case Nil
  then show ?case by simp
next
  case (Cons p src)
  obtain k v where p: "p = (k, v)" by (cases p)
  from Cons.prems have fresh: "k \<notin> fst ` set acc"
    and d: "distinct (map fst ((acc @ [(k, v)]) @ src))"
    unfolding p by auto
  show ?case unfolding p using Cons.IH [OF d] fresh by (simp add: set_property_fresh)
qed

lemma fold_delete_property:
  "fold (\<lambda>field result. delete_property result field) flds r
     = filter (\<lambda>(k, v). k \<notin> set flds) r"
proof (induction flds arbitrary: r)
  case Nil
  then show ?case by simp
next
  case (Cons a flds)
  have "fold (\<lambda>field result. delete_property result field) (a # flds) r
          = fold (\<lambda>field result. delete_property result field) flds (delete_property r a)"
    by simp
  also have "\<dots> = filter (\<lambda>(k, v). k \<notin> set flds) (delete_property r a)"
    by (rule Cons.IH)
  also have "\<dots> = filter (\<lambda>(k, v). k \<notin> set (a # flds)) r"
    unfolding delete_property_def filter_filter by (rule filter_cong) auto
  finally show ?case .
qed

lemma omitFields_item:
  "omitFields data flds
     = map (\<lambda>item. filter (\<lambda>(k, v). k \<notin> set flds) (object_spread [] item)) data"
  by (simp add: omitFields_def fold_delete_property)

section \<open>Field omission: the claims\<close>

text \<open>
  C8. \<open>omitFields\<close> is idempotent: for every sequence of records and every list of
  fields, omitting the fields from the result of omitting them changes nothing.
\<close>

theorem omitFields_idempotent:
  "omitFields (omitFields data flds) flds = omitFields data flds"
proof -
  have "object_spread [] (filter (\<lambda>(k, v). k \<notin> set flds) (object_spread [] item))
          = filter (\<lambda>(k, v). k \<notin> set flds) (object_spread [] item)" for item
    by (rule object_spread_distinct [of "[]", simplified])
       (simp add: distinct_map_filter distinct_object_spread)
  then show ?thesis by (simp add: omitFields_item)
qed

section \<open>The query: the claims\<close>

text \<open>
  C6. When \<open>parseQueryString\<close> fails, be it the decoding of the query string or the
  validation of its operators, \<open>query\<close> fails with the same error and the collaborator
  has not been called: the record of calls is empty. This holds in both revisions.
\<close>

theorem query_fails_before_collaborator:
  "(parseQueryString_json env ops queryString opts = Inl e \<longrightarrow>
      query_json env ops m queryString opts = (Inl e, []))
   \<and> (parseQueryString_flat env ops queryString opts = Inl e \<longrightarrow>
      query_flat env ops m queryString opts = (Inl e, []))"
  by (simp add: query_json_def query_flat_def run_query_def)

text \<open>
  At concrete inputs: the query of the README, \<open>{"age":{"$invalidOperator":30}}\<close> with
  the allow-list \<open>[$gte, $lte]\<close>, in the first revision; a parameter that starts with a
  brace and is not JSON, \<open>age={oops\<close>, in the second.
\<close>

theorem query_fails_before_collaborator_witness:
  "query_json
     (sample_env [(''{\"age\":{\"$invalidOperator\":30}}'',
                   [(''age'', JObj [(''$invalidOperator'', JNum (Fin 30))])])])
     [''$eq''] (sample_model 2 []) ''{\"age\":{\"$invalidOperator\":30}}''
     (no_options\<lparr>opt_allowedOperators := Some [''$gte'', ''$lte'']\<rparr>)
     = (Inl (Error ''Operator '$invalidOperator' is not allowed.''), [])
   \<and> query_flat (sample_env [(''age={oops'', [(''age'', JStr ''{oops'')])])
       [''$eq''] (sample_model 2 []) ''age={oops'' no_options
     = (Inl SyntaxError, [])"
  using
    query_fails_before_collaborator
      [of "sample_env [(''{\"age\":{\"$invalidOperator\":30}}'',
                        [(''age'', JObj [(''$invalidOperator'', JNum (Fin 30))])])]"
          "[''$eq'']" "''{\"age\":{\"$invalidOperator\":30}}''"
          "no_options\<lparr>opt_allowedOperators := Some [''$gte'', ''$lte'']\<rparr>"
          "Error ''Operator '$invalidOperator' is not allowed.''" "sample_model 2 []"]
    query_fails_before_collaborator
      [of "sample_env [(''age={oops'', [(''age'', JStr ''{oops'')])]"
          "[''$eq'']" "''age={oops''" no_options SyntaxError "sample_model 2 []"]
  by (simp add: parseQueryString_json_def parseQueryString_flat_def sample_env_def
        no_options_def not_allowed_message_def convert_entry_def brace_string_def)

section \<open>The combined filter\<close>

lemma map_of_object_spread:
  "distinct (map fst src) \<Longrightarrow> map_of (object_spread acc src) = map_of acc ++ map_of src"
proof (induction src arbitrary: acc)
  case Nil
  then show ?case by simp
next
  case (Cons p src)
  obtain k v where p: "p = (k, v)" by (cases p)
  from Cons.prems have k: "k \<notin> dom (map_of src)" and d: "distinct (map fst src)"
    unfolding p by (auto simp: dom_map_of_conv_image_fst)
  have "map_of (object_spread acc (p # src)) = (map_of acc)(k \<mapsto> v) ++ map_of src"
    unfolding p by (simp only: object_spread_Cons Cons.IH [OF d] map_of_set_property)
  also have "\<dots> = (map_of acc ++ map_of src)(k \<mapsto> v)"
    using k by (rule map_add_upd_left)
  also have "\<dots> = map_of acc ++ map_of (p # src)"
    unfolding p by simp
  finally show ?case .
qed

lemma distinct_assign: "distinct (map fst acc) \<Longrightarrow> distinct (map fst (assign acc k v))"
  by (simp add: assign_def distinct_set_property)

lemma distinct_fold_assign:
  "distinct (map fst acc) \<Longrightarrow>
   distinct (map fst (fold (\<lambda>(key, v) a. assign a key (h v)) xs acc))"
  by (induction xs arbitrary: acc) (auto simp: distinct_assign)

lemma distinct_convert_entry:
  "convert_entry env acc entry = Inr r \<Longrightarrow> distinct (map fst acc) \<Longrightarrow> distinct (map fst r)"
  by (cases entry)
     (auto simp: convert_entry_def distinct_assign split: option.splits sum.splits if_splits)

lemma distinct_convert_filters:
  "convert_filters env acc es = Inr r \<Longrightarrow> distinct (map fst acc) \<Longrightarrow> distinct (map fst r)"
proof (induction es arbitrary: acc)
  case Nil
  then show ?case by simp
next
  case (Cons e es)
  then show ?case by (auto split: sum.splits dest: distinct_convert_entry)
qed

lemma distinct_filter_json:
  "parseQueryString_json env ops qs opts = Inr p \<Longrightarrow> distinct (map fst (filter_q p))"
  by (auto simp: parseQueryString_json_def Let_def distinct_fold_assign split: sum.splits)

lemma distinct_filter_flat:
  "parseQueryString_flat env ops qs opts = Inr p \<Longrightarrow> distinct (map fst (filter_q p))"
  by (auto simp: parseQueryString_flat_def Let_def split: sum.splits
           dest: distinct_convert_filters)

lemma run_query_calls:
  "snd (run_query env (Inr p) m opts) =
     CountDocuments (combined p opts) #
       (case countDocuments m (combined p opts) of
          Inl e \<Rightarrow> []
        | Inr rows \<Rightarrow>
            [Find (combined p opts) (offset p) (limit p) (sort_q p) (opt_populate opts)])"
  by (simp add: run_query_def Let_def extra_filter_def combined_def split: sum.splits)

lemma combined_filter_merge:
  assumes "distinct (map fst parsed)" and "distinct (map fst extra)"
  shows "fst ` set (object_spread (object_spread [] parsed) extra) = fst ` set parsed \<union> fst ` set extra"
    and "(k, v) \<in> set extra \<Longrightarrow> map_of (object_spread (object_spread [] parsed) extra) k = Some v"
    and "k \<notin> fst ` set extra \<Longrightarrow> map_of (object_spread (object_spread [] parsed) extra) k = map_of parsed k"
proof -
  have eq: "object_spread [] parsed = parsed"
    using assms(1) by (simp add: object_spread_distinct)
  show "fst ` set (object_spread (object_spread [] parsed) extra) = fst ` set parsed \<union> fst ` set extra"
    by (simp add: keys_object_spread)
  have m: "map_of (object_spread (object_spread [] parsed) extra) = map_of parsed ++ map_of extra"
    unfolding eq using assms(2) by (rule map_of_object_spread)
  show "map_of (object_spread (object_spread [] parsed) extra) k = Some v" if "(k, v) \<in> set extra"
    using that assms(2) by (simp add: m map_add_Some_iff)
  show "map_of (object_spread (object_spread [] parsed) extra) k = map_of parsed k" if "k \<notin> fst ` set extra"
  proof -
    from that have "map_of extra k = None" by (simp add: map_of_eq_None_iff)
    then show ?thesis by (simp add: m map_add_def)
  qed
qed


lemma combined_props:
  assumes "distinct (map fst (filter_q p))" and "distinct (map fst (extra_filter opts))"
  shows "fst ` set (combined p opts) = fst ` set (filter_q p) \<union> fst ` set (extra_filter opts)
    \<and> (\<forall>k v. (k, v) \<in> set (extra_filter opts) \<longrightarrow> map_of (combined p opts) k = Some v)
    \<and> (\<forall>k. k \<notin> fst ` set (extra_filter opts) \<longrightarrow>
           map_of (combined p opts) k = map_of (filter_q p) k)"
  unfolding combined_def using combined_filter_merge [OF assms] by blast

text \<open>
  C5. When the query string parses, \<open>query\<close> calls \<open>countDocuments\<close> with a combined
  filter and, when the count succeeds, \<open>find\<close> with the same filter. The keys of that
  filter are the keys of the parsed filter together with the keys of
  \<open>options.queryMongoose\<close>; on every key of \<open>options.queryMongoose\<close> it holds the value
  given there, also when the parsed filter has the key; on every other key it holds the
  value of the parsed filter. This holds in both revisions.
\<close>

theorem combined_filter_extra_wins:
  assumes "distinct (map fst (extra_filter opts))"
  shows
    "(parseQueryString_json env ops queryString opts = Inr p \<longrightarrow>
        (\<exists>cf. snd (query_json env ops m queryString opts) =
                 CountDocuments cf #
                   (case countDocuments m cf of
                      Inl e \<Rightarrow> []
                    | Inr rows \<Rightarrow> [Find cf (offset p) (limit p) (sort_q p) (opt_populate opts)])
             \<and> fst ` set cf = fst ` set (filter_q p) \<union> fst ` set (extra_filter opts)
             \<and> (\<forall>k v. (k, v) \<in> set (extra_filter opts) \<longrightarrow> map_of cf k = Some v)
             \<and> (\<forall>k. k \<notin> fst ` set (extra_filter opts) \<longrightarrow>
                    map_of cf k = map_of (filter_q p) k)))
     \<and> (parseQueryString_flat env ops queryString opts = Inr p \<longrightarrow>
        (\<exists>cf. snd (query_flat env ops m queryString opts) =
                 CountDocuments cf #
                   (case countDocuments m cf of
                      Inl e \<Rightarrow> []
                    | Inr rows \<Rightarrow> [Find cf (offset p) (limit p) (sort_q p) (opt_populate opts)])
             \<and> fst ` set cf = fst ` set (filter_q p) \<union> fst ` set (extra_filter opts)
             \<and> (\<forall>k v. (k, v) \<in> set (extra_filter opts) \<longrightarrow> map_of cf k = Some v)
             \<and> (\<forall>k. k \<notin> fst ` set (extra_filter opts) \<longrightarrow>
                    map_of cf k = map_of (filter_q p) k)))"
proof (intro conjI impI)
  assume ok: "parseQueryString_json env ops queryString opts = Inr p"
  show "\<exists>cf. snd (query_json env ops m queryString opts) =
                 CountDocuments cf #
                   (case countDocuments m cf of
                      Inl e \<Rightarrow> []
                    | Inr rows \<Rightarrow> [Find cf (offset p) (limit p) (sort_q p) (opt_populate opts)])
             \<and> fst ` set cf = fst ` set (filter_q p) \<union> fst ` set (extra_filter opts)
             \<and> (\<forall>k v. (k, v) \<in> set (extra_filter opts) \<longrightarrow> map_of cf k = Some v)
             \<and> (\<forall>k. k \<notin> fst ` set (extra_filter opts) \<longrightarrow>
                    map_of cf k = map_of (filter_q p) k)"
    using combined_props [OF distinct_filter_json [OF ok] assms]
    by (intro exI [of _ "combined p opts"]) (simp add: query_json_def ok run_query_calls)
next
  assume ok: "parseQueryString_flat env ops queryString opts = Inr p"
  show "\<exists>cf. snd (query_flat env ops m queryString opts) =
                 CountDocuments cf #
                   (case countDocuments m cf of
                      Inl e \<Rightarrow> []
                    | Inr rows \<Rightarrow> [Find cf (offset p) (limit p) (sort_q p) (opt_populate opts)])
             \<and> fst ` set cf = fst ` set (filter_q p) \<union> fst ` set (extra_filter opts)
             \<and> (\<forall>k v. (k, v) \<in> set (extra_filter opts) \<longrightarrow> map_of cf k = Some v)
             \<and> (\<forall>k. k \<notin> fst ` set (extra_filter opts) \<longrightarrow>
                    map_of cf k = map_of (filter_q p) k)"
    using combined_props [OF distinct_filter_flat [OF ok] assms]
    by (intro exI [of _ "combined p opts"]) (simp add: query_flat_def ok run_query_calls)
qed

text \<open>
  At a concrete input: the client sends \<open>{"age":{"$gte":18},"tenant":"other"}\<close>, the
  server adds \<open>{tenant: "t1", isActive: true}\<close>, and the collaborator is asked for tenant
  \<open>t1\<close>.
\<close>

theorem combined_filter_extra_wins_witness:
  "distinct (map fst (extra_filter
       (no_options\<lparr>opt_queryMongoose := Some [(''tenant'', JStr ''t1''), (''isActive'', JBool True)]\<rparr>)))
   \<and> map_of (call_filter (hd (snd (query_json
       (sample_env [(''{\"age\":{\"$gte\":18},\"tenant\":\"other\"}'',
                     [(''age'', JObj [(''$gte'', JNum (Fin 18))]), (''tenant'', JStr ''other'')])])
       [''$gte''] (sample_model 2 []) ''{\"age\":{\"$gte\":18},\"tenant\":\"other\"}''
       (no_options\<lparr>opt_queryMongoose := Some [(''tenant'', JStr ''t1''), (''isActive'', JBool True)]\<rparr>))))) ''tenant''
     = Some (JStr ''t1'')"
proof -
  define opts where "opts = no_options\<lparr>opt_queryMongoose := Some [(''tenant'', JStr ''t1''), (''isActive'', JBool True)]\<rparr>"
  define env where "env = sample_env [(''{\"age\":{\"$gte\":18},\"tenant\":\"other\"}'',
                     [(''age'', JObj [(''$gte'', JNum (Fin 18))]), (''tenant'', JStr ''other'')])]"
  define qtext where "qtext = ''{\"age\":{\"$gte\":18},\"tenant\":\"other\"}''"
  define p where "p = \<lparr>filter_q = [(''age'', JObj [(''$gte'', JNum (Fin 18))]), (''tenant'', JStr ''other'')],
            limit = Fin 20, offset = Fin 0, sort_q = JObj [], count = JBool False,
            justOne = JBool False, cacheTimeMs = Fin 0\<rparr>"
  define m where "m = sample_model 2 []"
  have e: "extra_filter opts = [(''tenant'', JStr ''t1''), (''isActive'', JBool True)]"
    by (simp add: extra_filter_def opts_def)
  have d: "distinct (map fst (extra_filter opts))"
    unfolding e by simp
  have ok: "parseQueryString_json env [''$gte''] qtext opts = Inr p"
    unfolding env_def qtext_def opts_def p_def
    by (simp add: parseQueryString_json_def sample_env_def no_options_def DefaultLimit_def
          DefaultOffset_def assign_def)
  have "\<exists>cf. snd (query_json env [''$gte''] m qtext opts) =
                 CountDocuments cf #
                   (case countDocuments m cf of
                      Inl e \<Rightarrow> []
                    | Inr rows \<Rightarrow> [Find cf (offset p) (limit p) (sort_q p) (opt_populate opts)])
             \<and> fst ` set cf = fst ` set (filter_q p) \<union> fst ` set (extra_filter opts)
             \<and> (\<forall>k v. (k, v) \<in> set (extra_filter opts) \<longrightarrow> map_of cf k = Some v)
             \<and> (\<forall>k. k \<notin> fst ` set (extra_filter opts) \<longrightarrow>
                    map_of cf k = map_of (filter_q p) k)"
    by (rule mp [OF conjunct1 [OF combined_filter_extra_wins [OF d]] ok])
  then obtain cf where
    calls: "snd (query_json env [''$gte''] m qtext opts) =
                 CountDocuments cf #
                   (case countDocuments m cf of
                      Inl e \<Rightarrow> []
                    | Inr rows \<Rightarrow> [Find cf (offset p) (limit p) (sort_q p) (opt_populate opts)])"
    and wins: "\<forall>k v. (k, v) \<in> set (extra_filter opts) \<longrightarrow> map_of cf k = Some v"
    by blast
  have "(''tenant'', JStr ''t1'') \<in> set (extra_filter opts)"
    unfolding e by simp
  with wins have "map_of cf ''tenant'' = Some (JStr ''t1'')"
    by blast
  with calls have "map_of (call_filter (hd (snd (query_json env [''$gte''] m qtext opts)))) ''tenant''
     = Some (JStr ''t1'')"
    by simp
  with d show ?thesis
    unfolding env_def qtext_def opts_def m_def by simp
qed

section \<open>Field omission on a store: lemmas\<close>

lemma read_cell_append: "a < length h \<Longrightarrow> read_cell (h @ h') a = read_cell h a"
  by (simp add: read_cell_def nth_append)

lemma length_delete_at [simp]: "length (delete_at h r field) = length h"
  by (simp add: delete_at_def split: option.splits cell.splits)

lemma delete_at_other: "a \<noteq> r \<Longrightarrow> delete_at h r field ! a = h ! a"
  by (simp add: delete_at_def split: option.splits cell.splits)

lemma delete_at_same:
  "read_cell h r = Some (Record ps) \<Longrightarrow>
   read_cell (delete_at h r field) r = Some (Record (delete_property ps field))"
  by (auto simp: delete_at_def read_cell_def split: if_splits)

lemma fold_delete_at_length [simp]:
  "length (fold (\<lambda>field h'. delete_at h' r field) flds h) = length h"
  by (induction flds arbitrary: h) auto

lemma fold_delete_at_other:
  "a \<noteq> r \<Longrightarrow> fold (\<lambda>field h'. delete_at h' r field) flds h ! a = h ! a"
  by (induction flds arbitrary: h) (auto simp: delete_at_other)

lemma fold_delete_at_same:
  "read_cell h r = Some (Record ps) \<Longrightarrow>
   read_cell (fold (\<lambda>field h'. delete_at h' r field) flds h) r
     = Some (Record (fold (\<lambda>field result. delete_property result field) flds ps))"
  by (induction flds arbitrary: h ps) (auto simp: delete_at_same)

lemma omit_item_result:
  assumes "read_cell h item = Some (Record ps)"
  shows "\<exists>h1. omit_item h flds item = Some (h1, length h)
           \<and> length h1 = Suc (length h)
           \<and> take (length h) h1 = h
           \<and> read_cell h1 (length h)
               = Some (Record (fold (\<lambda>field result. delete_property result field) flds
                                 (object_spread [] ps)))"
proof -
  let ?h0 = "h @ [Record (object_spread [] ps)]"
  let ?h1 = "fold (\<lambda>field h'. delete_at h' (length h) field) flds ?h0"
  have r0: "read_cell ?h0 (length h) = Some (Record (object_spread [] ps))"
    by (simp add: read_cell_def)
  have "omit_item h flds item = Some (?h1, length h)"
    using assms by (simp add: omit_item_def alloc_def)
  moreover have "length ?h1 = Suc (length h)" by simp
  moreover have "take (length h) ?h1 = h"
    by (rule nth_equalityI) (auto simp: fold_delete_at_other nth_append)
  moreover note fold_delete_at_same [OF r0, of flds]
  ultimately show ?thesis by blast
qed


lemma prefix_length:
  assumes "take (length h) h' = h"
  shows "length h \<le> length h'"
proof -
  have "length (take (length h) h') = length h" by (simp only: assms)
  then show ?thesis by simp
qed

lemma prefix_read:
  assumes "take (length h) h' = h" and "a < length h"
  shows "read_cell h' a = read_cell h a"
proof -
  have "h' ! a = take (length h) h' ! a" using assms(2) by simp
  then have "h' ! a = h ! a" using assms(1) by simp
  moreover have "a < length h'" using prefix_length [OF assms(1)] assms(2) by simp
  ultimately show ?thesis using assms(2) by (simp add: read_cell_def)
qed

lemma prefix_trans:
  assumes "take (length h) h1 = h" and "take (length h1) h2 = h1"
  shows "take (length h) h2 = h"
proof -
  have "take (length h) h2 = take (length h) (take (length h1) h2)"
    using prefix_length [OF assms(1)] by (simp add: min_def)
  then show ?thesis using assms by simp
qed

lemma is_record_bound: "is_record h a \<Longrightarrow> a < length h"
  by (simp add: is_record_def read_cell_def split: if_splits)

lemma is_record_prefix:
  "take (length h) h' = h \<Longrightarrow> is_record h a \<Longrightarrow> is_record h' a"
  using prefix_read [of h h' a] is_record_bound [of h a] by (simp add: is_record_def)

lemma record_at_prefix:
  "take (length h) h' = h \<Longrightarrow> a < length h \<Longrightarrow> record_at h' a = record_at h a"
  by (simp add: record_at_def prefix_read)

lemma map_items_result:
  assumes "list_all (is_record h) items"
  shows "\<exists>h'. map_items h flds items = Some (h', [length h..<length h + length items])
           \<and> length h' = length h + length items
           \<and> take (length h) h' = h
           \<and> map (record_at h') [length h..<length h + length items]
               = omitFields (map (record_at h) items) flds"
  using assms
proof (induction items arbitrary: h)
  case Nil
  then show ?case by (simp add: omitFields_def)
next
  case (Cons item items)
  from Cons.prems have rec: "is_record h item" and rest: "list_all (is_record h) items"
    by simp_all
  from rec obtain ps where ps: "read_cell h item = Some (Record ps)"
    by (auto simp: is_record_def split: option.splits cell.splits)
  from omit_item_result [OF ps, of flds] obtain h1 where
    step: "omit_item h flds item = Some (h1, length h)"
    and len1: "length h1 = Suc (length h)"
    and pre1: "take (length h) h1 = h"
    and new: "read_cell h1 (length h)
               = Some (Record (fold (\<lambda>field result. delete_property result field) flds
                                 (object_spread [] ps)))"
    by blast
  have rest1: "list_all (is_record h1) items"
    using rest is_record_prefix [OF pre1] by (simp add: list_all_iff)
  from Cons.IH [OF rest1] obtain h2 where
    run: "map_items h1 flds items = Some (h2, [length h1..<length h1 + length items])"
    and len2: "length h2 = length h1 + length items"
    and pre2: "take (length h1) h2 = h1"
    and out: "map (record_at h2) [length h1..<length h1 + length items]
               = omitFields (map (record_at h1) items) flds"
    by blast
  have upt: "[length h..<length h + length (item # items)]
               = length h # [length h1..<length h1 + length items]"
    by (simp add: len1 upt_rec)
  have same: "map (record_at h1) items = map (record_at h) items"
    using rest is_record_bound [of h] record_at_prefix [OF pre1] by (simp add: list_all_iff)
  have first: "record_at h2 (length h)
                 = fold (\<lambda>field result. delete_property result field) flds
                     (object_spread [] (record_at h item))"
    using record_at_prefix [OF pre2, of "length h"] new ps by (simp add: len1 record_at_def)
  have "map_items h flds (item # items)
          = Some (h2, [length h..<length h + length (item # items)])"
    unfolding upt by (simp add: step run)
  moreover have "length h2 = length h + length (item # items)"
    by (simp add: len2 len1)
  moreover have "take (length h) h2 = h"
    by (rule prefix_trans [OF pre1 pre2])
  moreover have "map (record_at h2) [length h..<length h + length (item # items)]
                   = omitFields (map (record_at h) (item # items)) flds"
    unfolding upt using out first by (simp add: same omitFields_def)
  ultimately show ?case by blast
qed

section \<open>Field omission on a store: the claim\<close>

text \<open>
  C9. Let \<open>data\<close> be the address of an array of records. Then \<open>omitFields\<close> returns, and
  \<^item> every cell the store had before the call is the same after it: the input array and
    each input record are unchanged;
  \<^item> the result is a new array of new records, at addresses the store did not have;
  \<^item> the result has the length of the input, and its records are, in the order of the
    input, the input records without the omitted fields (what \<open>omitFields\<close> computes on
    values).
\<close>

theorem omitFields_store_frame:
  assumes "array_of_records h data"
  shows "\<exists>h' out. omitFields_store h data flds = Some (h', out)
           \<and> take (length h) h' = h
           \<and> items_at h' data = items_at h data
           \<and> (\<forall>item \<in> set (items_at h data). record_at h' item = record_at h item)
           \<and> length h \<le> out
           \<and> (\<forall>r \<in> set (items_at h' out). length h \<le> r)
           \<and> distinct (items_at h' out)
           \<and> length (items_at h' out) = length (items_at h data)
           \<and> map (record_at h') (items_at h' out)
               = omitFields (map (record_at h) (items_at h data)) flds"
proof -
  from assms obtain items where
    arr: "read_cell h data = Some (Array items)" and recs: "list_all (is_record h) items"
    by (auto simp: array_of_records_def split: option.splits cell.splits)
  from arr have data: "data < length h"
    by (simp add: read_cell_def split: if_splits)
  let ?results = "[length h..<length h + length items]"
  from map_items_result [OF recs, of flds] obtain h1 where
    run: "map_items h flds items = Some (h1, ?results)"
    and len1: "length h1 = length h + length items"
    and pre1: "take (length h) h1 = h"
    and out: "map (record_at h1) ?results = omitFields (map (record_at h) items) flds"
    by blast
  let ?h' = "h1 @ [Array ?results]"
  have pre1': "take (length h1) ?h' = h1" by simp
  have pre: "take (length h) ?h' = h" by (rule prefix_trans [OF pre1 pre1'])
  have call: "omitFields_store h data flds = Some (?h', length h1)"
    by (simp add: omitFields_store_def arr run alloc_def)
  have it: "items_at h data = items" by (simp add: items_at_def arr)
  have res: "items_at ?h' (length h1) = ?results" by (simp add: items_at_def read_cell_def)
  have "items_at ?h' data = items_at h data"
    using prefix_read [OF pre data] by (simp add: items_at_def)
  moreover have "\<forall>item \<in> set (items_at h data). record_at ?h' item = record_at h item"
    unfolding it using recs is_record_bound [of h] record_at_prefix [OF pre]
    by (simp add: list_all_iff)
  moreover have "length h \<le> length h1" by (simp add: len1)
  moreover have "\<forall>r \<in> set (items_at ?h' (length h1)). length h \<le> r"
    unfolding res by simp
  moreover have "distinct (items_at ?h' (length h1))"
    unfolding res by simp
  moreover have "length (items_at ?h' (length h1)) = length (items_at h data)"
    unfolding res it by simp
  moreover have "map (record_at ?h') (items_at ?h' (length h1))
                   = omitFields (map (record_at h) (items_at h data)) flds"
  proof -
    have "map (record_at ?h') ?results = map (record_at h1) ?results"
      using record_at_prefix [OF pre1'] by (simp add: len1)
    then show ?thesis unfolding res it using out by simp
  qed
  ultimately show ?thesis using call pre by blast
qed

text \<open>
  At the input of the tests: one record \<open>{name, password, age}\<close> at address 0, the array
  at address 1. The copy without \<open>password\<close> is at address 2, the new array at address 3.
\<close>

theorem omitFields_store_frame_witness:
  "array_of_records
     [Record [(''name'', JStr ''A''), (''password'', JStr ''x''), (''age'', JNum (Fin 1))],
      Array [0]] 1
   \<and> omitFields_store
       [Record [(''name'', JStr ''A''), (''password'', JStr ''x''), (''age'', JNum (Fin 1))],
        Array [0]] 1 [''password'']
     = Some ([Record [(''name'', JStr ''A''), (''password'', JStr ''x''), (''age'', JNum (Fin 1))],
              Array [0],
              Record [(''name'', JStr ''A''), (''age'', JNum (Fin 1))],
              Array [2]], 3)"
  using omitFields_store_frame
    [of "[Record [(''name'', JStr ''A''), (''password'', JStr ''x''), (''age'', JNum (Fin 1))],
          Array [0]]" 1 "[''password'']"]
  by (simp add: array_of_records_def is_record_def read_cell_def omitFields_store_def
        omit_item_def alloc_def delete_at_def delete_property_def)

section \<open>Parsing: lemmas\<close>

lemma falsy_number:
  "\<not> truthy v \<Longrightarrow> v \<noteq> JNum NaN \<Longrightarrow> StringToNumber env [] = Fin 0 \<Longrightarrow> Number_js env v = Fin 0"
  by (cases v) auto

lemma json_limit:
  assumes "parseQueryString_json env ops qs opts = Inr p" and "JSON_parse env qs = Inr query"
  shows "limit p = Number_js env (case map_of query ''limit'' of None \<Rightarrow> DefaultLimit | Some v \<Rightarrow> v)"
    and "offset p = Number_js env (case map_of query ''offset'' of None \<Rightarrow> DefaultOffset | Some v \<Rightarrow> v)"
  using assms by (auto simp: parseQueryString_json_def Let_def split: sum.splits)

lemma flat_limit:
  assumes "parseQueryString_flat env ops qs opts = Inr p"
  shows "limit p = Number_js env (js_or (map_of (qs_parse env qs) ''limit'') DefaultLimit)"
    and "offset p = Number_js env (js_or (map_of (qs_parse env qs) ''offset'') DefaultOffset)"
  using assms by (auto simp: parseQueryString_flat_def Let_def split: sum.splits)

lemma five_halves_not_integer: "(5 / 2 :: rat) \<notin> \<int>"
proof
  assume "(5 / 2 :: rat) \<in> \<int>"
  then obtain n :: int where "(5 / 2 :: rat) = of_int n" by (rule Ints_cases)
  then have "(of_int 5 :: rat) = of_int (2 * n)" by simp
  then have "(5::int) = 2 * n" by (simp only: of_int_eq_iff)
  then show False by presburger
qed

lemma keys_assign:
  "fst ` set (assign acc k v) = (if k = ''__proto__'' then fst ` set acc else insert k (fst ` set acc))"
  by (simp add: assign_def keys_set_property)

lemma keys_fold_assign:
  "fst ` set (fold (\<lambda>(key, v) a. assign a key (h v)) xs acc)
     = fst ` set acc \<union> {k \<in> fst ` set xs. k \<noteq> ''__proto__''}"
proof (induction xs arbitrary: acc)
  case Nil
  then show ?case by simp
next
  case (Cons x xs)
  obtain k v where x: "x = (k, v)" by (cases x)
  show ?case unfolding x by (auto simp: Cons.IH keys_assign)
qed

lemma convert_entry_assign:
  "convert_entry env acc (k, v) = Inr r \<Longrightarrow> \<exists>w. r = assign acc k w"
  by (auto simp: convert_entry_def split: option.splits sum.splits if_splits)

lemma keys_convert_entry:
  assumes "convert_entry env acc (k, v) = Inr r"
  shows "fst ` set r = (if k = ''__proto__'' then fst ` set acc else insert k (fst ` set acc))"
proof -
  from convert_entry_assign [OF assms] obtain w where "r = assign acc k w" ..
  then show ?thesis by (simp only: keys_assign)
qed

lemma keys_convert_filters:
  "convert_filters env acc es = Inr r \<Longrightarrow>
   fst ` set r = fst ` set acc \<union> {k \<in> fst ` set es. k \<noteq> ''__proto__''}"
proof (induction es arbitrary: acc)
  case Nil
  then show ?case by simp
next
  case (Cons e es)
  obtain k v where e: "e = (k, v)" by (cases e)
  from Cons.prems obtain acc' where
    step: "convert_entry env acc (k, v) = Inr acc'" and run: "convert_filters env acc' es = Inr r"
    unfolding e by (auto split: sum.splits)
  show ?case
    unfolding Cons.IH [OF run] keys_convert_entry [OF step] e by auto
qed

lemma filter_keys_json:
  assumes "parseQueryString_json env ops qs opts = Inr p" and "JSON_parse env qs = Inr query"
  shows "fst ` set (filter_q p)
           = {k \<in> fst ` set query.
                k \<notin> {''limit'', ''offset'', ''sort'', ''count'', ''justOne''} \<and> k \<noteq> ''__proto__''}"
proof -
  from assms have fq:
    "filter_q p =
       fold (\<lambda>(key, v) acc.
               assign acc key
                 (if typeof v = T_object then JObj (object_spread [] (own_entries v)) else v))
         (filter (\<lambda>(k, v). k \<notin> set [''limit'', ''offset'', ''sort'', ''justOne'', ''count''])
            query) []"
    by (auto simp: parseQueryString_json_def Let_def split: sum.splits)
  show ?thesis unfolding fq keys_fold_assign by auto
qed

lemma filter_keys_flat:
  assumes "parseQueryString_flat env ops qs opts = Inr p"
  shows "fst ` set (filter_q p)
           = {k \<in> fst ` set (qs_parse env qs).
                k \<notin> {''limit'', ''offset'', ''sort'', ''count'', ''justOne''} \<and> k \<noteq> ''__proto__''}"
proof -
  from assms have fq:
    "convert_filters env []
       (filter (\<lambda>(key, v). key \<notin> set [''limit'', ''offset'', ''sort'', ''count'', ''justOne''])
          (qs_parse env qs)) = Inr (filter_q p)"
    by (auto simp: parseQueryString_flat_def Let_def split: sum.splits)
  show ?thesis unfolding keys_convert_filters [OF fq] by auto
qed

lemma totalPages_no_rows:
  assumes "run_query env (Inr p) m opts = (Inr r, calls)"
    and "totalRows (pagination r) = 0" and "limit p \<noteq> Fin 0" and "limit p \<noteq> NaN"
  shows "totalPages (pagination r) = Fin 0"
proof -
  have "Math_ceil (js_div env 0 (limit p)) = Fin 0"
    using assms(3,4) by (cases "limit p") auto
  with assms(1,2) show ?thesis
    by (auto simp: run_query_def Let_def split: sum.splits)
qed

section \<open>Parsing: the claims\<close>

text \<open>
  C3, as amended. When the query string parses:
  \<^item> in both revisions, an absent \<open>limit\<close> gives the limit 20 and an absent \<open>offset\<close> the
    offset 0;
  \<^item> in the second revision a falsy \<open>limit\<close> or \<open>offset\<close> gives the default as well; in the
    first revision a falsy \<open>offset\<close> gives 0 (for the empty string because \<open>Number('')\<close>
    is 0);
  \<^item> in both revisions a \<open>limit\<close> or \<open>offset\<close> supplied as a string (in the second
    revision a non-empty one) is held as \<open>Number\<close> of that string: a number, which
    need not be an integer.
  Of a falsy \<open>limit\<close> in the first revision nothing more is said here: the empty string
  is held as \<open>Number('')\<close>, like every string, and of the other falsy values nothing.
\<close>

theorem limit_offset_defaults_and_coercion:
  "(parseQueryString_json env ops queryString opts = Inr p \<and> JSON_parse env queryString = Inr query \<longrightarrow>
      (map_of query ''limit'' = None \<longrightarrow> limit p = Fin 20)
    \<and> (map_of query ''offset'' = None \<longrightarrow> offset p = Fin 0)
    \<and> (map_of query ''offset'' = Some v \<and> \<not> truthy v \<and> v \<noteq> JNum NaN
          \<and> StringToNumber env [] = Fin 0 \<longrightarrow> offset p = Fin 0)
    \<and> (map_of query ''limit'' = Some (JStr s) \<longrightarrow> limit p = StringToNumber env s)
    \<and> (map_of query ''offset'' = Some (JStr s) \<longrightarrow> offset p = StringToNumber env s))
   \<and> (parseQueryString_flat env ops queryString opts = Inr p \<and> qs_parse env queryString = query \<longrightarrow>
      (map_of query ''limit'' = None \<or> (map_of query ''limit'' = Some v \<and> \<not> truthy v)
         \<longrightarrow> limit p = Fin 20)
    \<and> (map_of query ''offset'' = None \<or> (map_of query ''offset'' = Some v \<and> \<not> truthy v)
         \<longrightarrow> offset p = Fin 0)
    \<and> (map_of query ''limit'' = Some (JStr s) \<and> s \<noteq> [] \<longrightarrow> limit p = StringToNumber env s)
    \<and> (map_of query ''offset'' = Some (JStr s) \<and> s \<noteq> [] \<longrightarrow> offset p = StringToNumber env s))"
proof (intro conjI impI; (elim conjE)?)
  assume ok: "parseQueryString_json env ops queryString opts = Inr p"
    and dec: "JSON_parse env queryString = Inr query"
  note l = json_limit [OF ok dec]
  show "limit p = Fin 20" if "map_of query ''limit'' = None"
    using that by (simp add: l DefaultLimit_def)
  show "offset p = Fin 0" if "map_of query ''offset'' = None"
    using that by (simp add: l DefaultOffset_def)
  show "offset p = Fin 0"
    if "map_of query ''offset'' = Some v" "\<not> truthy v" "v \<noteq> JNum NaN" "StringToNumber env [] = Fin 0"
    using that by (simp add: l falsy_number)
  show "limit p = StringToNumber env s" if "map_of query ''limit'' = Some (JStr s)"
    using that by (simp add: l)
  show "offset p = StringToNumber env s" if "map_of query ''offset'' = Some (JStr s)"
    using that by (simp add: l)
next
  assume ok: "parseQueryString_flat env ops queryString opts = Inr p"
    and dec: "qs_parse env queryString = query"
  note l = flat_limit [OF ok, unfolded dec]
  show "limit p = Fin 20"
    if "map_of query ''limit'' = None \<or> (map_of query ''limit'' = Some v \<and> \<not> truthy v)"
    using that by (auto simp: l DefaultLimit_def)
  show "offset p = Fin 0"
    if "map_of query ''offset'' = None \<or> (map_of query ''offset'' = Some v \<and> \<not> truthy v)"
    using that by (auto simp: l DefaultOffset_def)
  show "limit p = StringToNumber env s" if "map_of query ''limit'' = Some (JStr s)" "s \<noteq> []"
    using that by (simp add: l)
  show "offset p = StringToNumber env s" if "map_of query ''offset'' = Some (JStr s)" "s \<noteq> []"
    using that by (simp add: l)
qed

text \<open>
  At concrete inputs: \<open>{"limit":"10"}\<close> in the first revision gives the limit 10 and the
  offset 0; \<open>limit=&offset=5\<close> in the second gives the limit 20 and the offset 5.
\<close>

theorem limit_offset_defaults_and_coercion_witness:
  "parseQueryString_json (sample_env [(''{\"limit\":\"10\"}'', [(''limit'', JStr ''10'')])])
       [''$gte''] ''{\"limit\":\"10\"}'' no_options
     = Inr \<lparr>filter_q = [], limit = Fin 10, offset = Fin 0, sort_q = JObj [],
            count = JBool False, justOne = JBool False, cacheTimeMs = Fin 0\<rparr>
   \<and> JSON_parse (sample_env [(''{\"limit\":\"10\"}'', [(''limit'', JStr ''10'')])])
       ''{\"limit\":\"10\"}'' = Inr [(''limit'', JStr ''10'')]
   \<and> StringToNumber (sample_env [(''{\"limit\":\"10\"}'', [(''limit'', JStr ''10'')])]) ''10''
       = Fin 10
   \<and> parseQueryString_flat
       (sample_env [(''limit=&offset=5'', [(''limit'', JStr []), (''offset'', JStr ''5'')])])
       [''$gte''] ''limit=&offset=5'' no_options
     = Inr \<lparr>filter_q = [], limit = Fin 20, offset = Fin 5, sort_q = JObj [],
            count = JBool False, justOne = JBool False, cacheTimeMs = Fin 0\<rparr>
   \<and> qs_parse (sample_env [(''limit=&offset=5'', [(''limit'', JStr []), (''offset'', JStr ''5'')])])
       ''limit=&offset=5'' = [(''limit'', JStr []), (''offset'', JStr ''5'')]
   \<and> \<not> truthy (JStr [])"
proof -
  define env1 where "env1 = sample_env [(''{\"limit\":\"10\"}'', [(''limit'', JStr ''10'')])]"
  define env2 where
    "env2 = sample_env [(''limit=&offset=5'', [(''limit'', JStr []), (''offset'', JStr ''5'')])]"
  define q1 where "q1 = ''{\"limit\":\"10\"}''"
  define q2 where "q2 = ''limit=&offset=5''"
  have dec1: "JSON_parse env1 q1 = Inr [(''limit'', JStr ''10'')]"
    by (simp add: env1_def q1_def sample_env_def)
  have dec2: "qs_parse env2 q2 = [(''limit'', JStr []), (''offset'', JStr ''5'')]"
    by (simp add: env2_def q2_def sample_env_def)
  have num1: "StringToNumber env1 ''10'' = Fin 10"
    by (simp add: env1_def sample_env_def decimal_number_def unsigned_decimal_def digit_value_def)
  have num2: "StringToNumber env2 ''5'' = Fin 5"
    by (simp add: env2_def sample_env_def decimal_number_def unsigned_decimal_def digit_value_def)
  obtain p1 where ok1: "parseQueryString_json env1 [''$gte''] q1 no_options = Inr p1"
    and rest1: "filter_q p1 = []" "sort_q p1 = JObj []" "count p1 = JBool False"
      "justOne p1 = JBool False" "cacheTimeMs p1 = Fin 0"
    by (simp add: parseQueryString_json_def dec1 no_options_def)
  obtain p2 where ok2: "parseQueryString_flat env2 [''$gte''] q2 no_options = Inr p2"
    and rest2: "filter_q p2 = []" "sort_q p2 = JObj []" "count p2 = JBool False"
      "justOne p2 = JBool False" "cacheTimeMs p2 = Fin 0"
    by (simp add: parseQueryString_flat_def dec2 no_options_def)
  have l1: "limit p1 = StringToNumber env1 ''10''" and o1: "offset p1 = Fin 0"
    using limit_offset_defaults_and_coercion [of env1 "[''$gte'']" q1 no_options p1 "[(''limit'', JStr ''10'')]" JNull "''10''"]
      ok1 dec1 by simp_all
  have l2: "limit p2 = Fin 20"
    using limit_offset_defaults_and_coercion [of env2 "[''$gte'']" q2 no_options p2
                 "[(''limit'', JStr []), (''offset'', JStr ''5'')]" "JStr []" "''5''"]
      ok2 dec2 by simp
  have o2: "offset p2 = StringToNumber env2 ''5''"
    using limit_offset_defaults_and_coercion [of env2 "[''$gte'']" q2 no_options p2
                 "[(''limit'', JStr []), (''offset'', JStr ''5'')]" "JStr []" "''5''"]
      ok2 dec2 by simp
  have p1: "p1 = \<lparr>filter_q = [], limit = Fin 10, offset = Fin 0, sort_q = JObj [],
            count = JBool False, justOne = JBool False, cacheTimeMs = Fin 0\<rparr>"
    using rest1 l1 o1 num1 by (cases p1) simp
  have p2: "p2 = \<lparr>filter_q = [], limit = Fin 20, offset = Fin 5, sort_q = JObj [],
            count = JBool False, justOne = JBool False, cacheTimeMs = Fin 0\<rparr>"
    using rest2 l2 o2 num2 by (cases p2) simp
  show ?thesis
    using ok1 ok2 dec1 dec2 num1 unfolding p1 p2 env1_def env2_def q1_def q2_def by simp
qed

text \<open>
  C3 as stated fails. In the first revision the falsy limit of \<open>{"limit":0}\<close> is kept, not
  replaced by 20: a default of the destructuring pattern applies only to an absent key.
  In both revisions the numeric string \<open>2.5\<close> is held as the number 2.5, which is not an
  integer.
\<close>

theorem limit_falsy_or_fractional:
  "parseQueryString_json (sample_env [(''{\"limit\":0}'', [(''limit'', JNum (Fin 0))])])
       [''$gte''] ''{\"limit\":0}'' no_options
     = Inr \<lparr>filter_q = [], limit = Fin 0, offset = Fin 0, sort_q = JObj [],
            count = JBool False, justOne = JBool False, cacheTimeMs = Fin 0\<rparr>
   \<and> parseQueryString_json (sample_env [(''{\"limit\":\"2.5\"}'', [(''limit'', JStr ''2.5'')])])
       [''$gte''] ''{\"limit\":\"2.5\"}'' no_options
     = Inr \<lparr>filter_q = [], limit = Fin (5 / 2), offset = Fin 0, sort_q = JObj [],
            count = JBool False, justOne = JBool False, cacheTimeMs = Fin 0\<rparr>
   \<and> parseQueryString_flat (sample_env [(''limit=2.5'', [(''limit'', JStr ''2.5'')])])
       [''$gte''] ''limit=2.5'' no_options
     = Inr \<lparr>filter_q = [], limit = Fin (5 / 2), offset = Fin 0, sort_q = JObj [],
            count = JBool False, justOne = JBool False, cacheTimeMs = Fin 0\<rparr>
   \<and> (5 / 2 :: rat) \<notin> \<int>"
  apply (intro conjI)
     apply (simp add: parseQueryString_json_def sample_env_def no_options_def DefaultOffset_def)
    apply (simp add: parseQueryString_json_def sample_env_def no_options_def DefaultOffset_def
      decimal_number_def unsigned_decimal_def digit_value_def)
   apply (simp add: parseQueryString_flat_def sample_env_def no_options_def DefaultOffset_def
      decimal_number_def unsigned_decimal_def digit_value_def)
  apply (rule five_halves_not_integer)
  done

text \<open>
  C4, at the input \<open>{"__proto__":1}\<close> in the first revision: the key \<open>__proto__\<close> is a
  top-level key of the input and not one of the five reserved keys, and the filter of the
  parsed spec is empty. (Apart from that key, the keys of the filter are the keys of the
  input without the reserved ones, in both revisions: \<open>filter_keys_json\<close>,
  \<open>filter_keys_flat\<close>.)
\<close>

theorem proto_key_not_in_filter:
  "parseQueryString_json (sample_env [(''{\"__proto__\":1}'', [(''__proto__'', JNum (Fin 1))])])
     [''$gte''] ''{\"__proto__\":1}'' no_options
   = Inr \<lparr>filter_q = [], limit = Fin 20, offset = Fin 0, sort_q = JObj [],
          count = JBool False, justOne = JBool False, cacheTimeMs = Fin 0\<rparr>"
  by (simp add: parseQueryString_json_def sample_env_def no_options_def
        DefaultLimit_def DefaultOffset_def assign_def)

text \<open>
  C2, at the limit 0 with no matching document: \<open>{"limit":0}\<close> in the first revision,
  \<open>limit=0\<close> in the second (a non-empty string is truthy, so the default does not
  apply). The query completes, and \<open>totalPages\<close> is \<open>Math.ceil(0 / 0)\<close>, which is \<open>NaN\<close>.
  (For every limit other than 0 and \<open>NaN\<close>, no rows give no pages:
  \<open>totalPages_no_rows\<close>.)
\<close>

theorem totalPages_zero_limit:
  "query_json (sample_env [(''{\"limit\":0}'', [(''limit'', JNum (Fin 0))])]) [''$gte'']
     (sample_model 0 []) ''{\"limit\":0}'' no_options
     = (Inr \<lparr>records = [], pagination = \<lparr>totalRows = 0, totalPages = NaN\<rparr>\<rparr>,
        [CountDocuments [], Find [] (Fin 0) (Fin 0) (JObj []) None])
   \<and> query_flat (sample_env [(''limit=0'', [(''limit'', JStr ''0'')])]) [''$gte'']
     (sample_model 0 []) ''limit=0'' no_options
     = (Inr \<lparr>records = [], pagination = \<lparr>totalRows = 0, totalPages = NaN\<rparr>\<rparr>,
        [CountDocuments [], Find [] (Fin 0) (Fin 0) (JObj []) None])"
  by (simp add: query_json_def query_flat_def run_query_def parseQueryString_json_def
        parseQueryString_flat_def sample_env_def sample_model_def no_options_def
        DefaultLimit_def DefaultOffset_def decimal_number_def unsigned_decimal_def
        digit_value_def)

end
